theory Spec2Isabelle
  imports Complex_Main "HOL-Library.Sublist"
begin

section \<open>Python strings\<close>

text \<open>
  A Python \<^verbatim>\<open>str\<close> is a sequence of Unicode code points, and \<^verbatim>\<open>len\<close> counts code
  points; the bullet marker of the response parser (U+2022) is not ASCII. A character is
  therefore its code point, a natural number, and a string a list of them. The function
  \<open>ascii\<close> only writes such a list from a literal.

  Strings are assumed encodable to UTF-8 (no lone surrogate), so that hashing a cache key
  does not fail.
\<close>

type_synonym pychar = nat
type_synonym pystr = "pychar list"

definition ascii :: "string \<Rightarrow> pystr" where
  "ascii s = map of_char s"

text \<open>
  \<^verbatim>\<open>str.isspace\<close> of one code point, which is also the class \<^verbatim>\<open>\s\<close> of \<^verbatim>\<open>re\<close> on
  \<^verbatim>\<open>str\<close> patterns (CPython's \<^verbatim>\<open>Py_UNICODE_ISSPACE\<close>): U+0009..U+000D, U+001C..U+0020,
  U+0085, U+00A0, U+1680, U+2000..U+200A, U+2028, U+2029, U+202F, U+205F, U+3000.
\<close>

definition isspace :: "pychar \<Rightarrow> bool" where
  "isspace c \<longleftrightarrow>
     (9 \<le> c \<and> c \<le> 13) \<or> (28 \<le> c \<and> c \<le> 32) \<or> c = 133 \<or> c = 160 \<or> c = 5760 \<or>
     (8192 \<le> c \<and> c \<le> 8202) \<or> c = 8232 \<or> c = 8233 \<or> c = 8239 \<or> c = 8287 \<or> c = 12288"

text \<open>
  What the Python runtime knows about the code points beyond ASCII, and \<^verbatim>\<open>str.lower\<close>
  (which may change the length of a string), are not code of this repository: they are
  parameters of the model. On ASCII the classes are written out.
\<close>

record unicode =
  uni_decimal :: "pychar \<Rightarrow> nat option"
  uni_alnum :: "pychar \<Rightarrow> bool"
  str_lower :: "pystr \<Rightarrow> pystr"

text \<open>The class \<^verbatim>\<open>\d\<close> and the value \<^verbatim>\<open>int\<close> gives a decimal digit.\<close>

definition digit_value :: "unicode \<Rightarrow> pychar \<Rightarrow> nat option" where
  "digit_value U c =
     (if c < 128 then (if 48 \<le> c \<and> c \<le> 57 then Some (c - 48) else None)
      else uni_decimal U c)"

definition isdigit :: "unicode \<Rightarrow> pychar \<Rightarrow> bool" where
  "isdigit U c \<longleftrightarrow> digit_value U c \<noteq> None"

text \<open>The class \<^verbatim>\<open>\w\<close>: alphanumeric or underscore.\<close>

definition isword :: "unicode \<Rightarrow> pychar \<Rightarrow> bool" where
  "isword U c \<longleftrightarrow>
     (if c < 128
      then (48 \<le> c \<and> c \<le> 57) \<or> (65 \<le> c \<and> c \<le> 90) \<or> c = 95 \<or> (97 \<le> c \<and> c \<le> 122)
      else uni_alnum U c)"

text \<open>The ranges \<^verbatim>\<open>[A-Z]\<close> and \<^verbatim>\<open>[a-z]\<close> of a pattern are ASCII ranges.\<close>

definition is_AZ :: "pychar \<Rightarrow> bool" where
  "is_AZ c \<longleftrightarrow> 65 \<le> c \<and> c \<le> 90"

definition is_az :: "pychar \<Rightarrow> bool" where
  "is_az c \<longleftrightarrow> 97 \<le> c \<and> c \<le> 122"

text \<open>\<^verbatim>\<open>s.strip()\<close>, \<^verbatim>\<open>s.split(c)\<close> for a one-character separator, \<^verbatim>\<open>sep.join(xs)\<close>,
  \<^verbatim>\<open>sub in s\<close>, \<^verbatim>\<open>s.startswith(p)\<close>.\<close>

definition lstrip :: "pystr \<Rightarrow> pystr" where
  "lstrip s = dropWhile isspace s"

definition rstrip :: "pystr \<Rightarrow> pystr" where
  "rstrip s = rev (dropWhile isspace (rev s))"

definition strip :: "pystr \<Rightarrow> pystr" where
  "strip s = rstrip (lstrip s)"

fun split_on :: "pychar \<Rightarrow> pystr \<Rightarrow> pystr list" where
  "split_on c [] = [[]]"
| "split_on c (x # xs) =
     (if x = c then [] # split_on c xs
      else (case split_on c xs of [] \<Rightarrow> [[x]] | y # ys \<Rightarrow> (x # y) # ys))"

fun join :: "pystr \<Rightarrow> pystr list \<Rightarrow> pystr" where
  "join sep [] = []"
| "join sep [x] = x"
| "join sep (x # y # ys) = x @ sep @ join sep (y # ys)"

fun startswith :: "pystr \<Rightarrow> pystr \<Rightarrow> bool" where
  "startswith s [] = True"
| "startswith [] (p # ps) = False"
| "startswith (c # cs) (p # ps) = (c = p \<and> startswith cs ps)"

fun contains :: "pystr \<Rightarrow> pystr \<Rightarrow> bool" where
  "contains [] sub = (sub = [])"
| "contains (c # cs) sub = (startswith (c # cs) sub \<or> contains cs sub)"

text \<open>\<^verbatim>\<open>str(n)\<close> for a non-negative integer.\<close>

fun str_nat :: "nat \<Rightarrow> pystr" where
  "str_nat n = (if n < 10 then [48 + n] else str_nat (n div 10) @ [48 + n mod 10])"

declare str_nat.simps [simp del]

text \<open>\<^verbatim>\<open>xs[:n]\<close> for an integer \<open>n\<close>: a negative bound counts from the end.\<close>

definition slice_to :: "int \<Rightarrow> 'a list \<Rightarrow> 'a list" where
  "slice_to n xs = (if 0 \<le> n then take (nat n) xs else take (length xs - nat (- n)) xs)"

section \<open>Data model\<close>

text \<open>
  Modelled from the spec: the classes \<^verbatim>\<open>SearchResult\<close>, \<^verbatim>\<open>Source\<close> and
  \<^verbatim>\<open>ExplainResponse\<close> of \<^verbatim>\<open>models/schemas.py\<close>, a module that is not among the
  sources. Their fields are those of the data model of the specification, which are also
  the fields the services build and read. A score is a float, which the sort compares
  exactly; it is a real number here (no NaN). The snippet of a source is absent when the
  snippet of the result is empty, as \<^verbatim>\<open>_build_sources\<close> builds it.
\<close>

record SearchResult =
  title :: pystr
  url :: pystr
  snippet :: pystr
  score :: "real option"

record Source =
  source_id :: nat
  source_title :: pystr
  source_url :: pystr
  source_snippet :: "pystr option"

record ExplainResponse =
  bullets :: "pystr list"
  sources :: "Source list"
  cached :: bool

text \<open>An exception, as far as the code looks at it: \<^verbatim>\<open>str(e)\<close>.\<close>

datatype exn = Exception (str_of: pystr)

text \<open>The image payload handed to a vision model: the data URL of its
  \<^verbatim>\<open>image_url\<close> entry (the other entries are constants).\<close>

datatype image_data = ImageData (data_url: pystr)

record http_response =
  content_type :: pystr
  content :: "nat list"

text \<open>The content array sent to Claude: an optional base64 image (media type and
  data) and the prompt.\<close>

record content =
  content_image :: "(pystr \<times> pystr) option"
  content_text :: pystr

text \<open>What a streaming call does once it is open: the chunks it yields, and the
  exception that ends it, if one does.\<close>

type_synonym streamed = "pystr list \<times> exn option"

section \<open>The outside world\<close>

text \<open>
  Every call that leaves the process is recorded, with its arguments and its outcome, in
  a trace. An external service is a function of the trace so far and of the arguments of
  the call: it may answer the same call differently each time. The clock is read from the
  trace as well.
\<close>

datatype event =
    HttpGet pystr "exn + http_response"
  | TavilySearch pystr int "exn + SearchResult list"
  | BraveSearch pystr int "exn + SearchResult list"
  | OpenAIGenerate pystr "image_data option" "exn + pystr"
  | OpenAIStream pystr "image_data option" streamed
  | MessagesCreate pystr content "exn + pystr list"
  | MessagesStream pystr content "exn + streamed"

type_synonym trace = "event list"

record services =
  http_get :: "trace \<Rightarrow> pystr \<Rightarrow> exn + http_response"
  tavily_search :: "trace \<Rightarrow> pystr \<Rightarrow> int \<Rightarrow> exn + SearchResult list"
  brave_search :: "trace \<Rightarrow> pystr \<Rightarrow> int \<Rightarrow> exn + SearchResult list"
  openai_generate :: "trace \<Rightarrow> pystr \<Rightarrow> image_data option \<Rightarrow> exn + pystr"
  openai_stream :: "trace \<Rightarrow> pystr \<Rightarrow> image_data option \<Rightarrow> streamed"
  messages_create :: "trace \<Rightarrow> pystr \<Rightarrow> content \<Rightarrow> exn + pystr list"
  messages_stream :: "trace \<Rightarrow> pystr \<Rightarrow> content \<Rightarrow> exn + streamed"
  now :: "trace \<Rightarrow> int"
  sha256_hexdigest :: "pystr \<Rightarrow> pystr"
  b64encode :: "nat list \<Rightarrow> pystr"
  path_suffix :: "pystr \<Rightarrow> pystr"

text \<open>The settings of \<^verbatim>\<open>config.py\<close> that the services read.\<close>

record settings =
  brave_api_key :: "pystr option"
  anthropic_api_key :: "pystr option"
  max_search_results :: int
  cache_ttl :: int

section \<open>Query extraction (\<^verbatim>\<open>services/query_extractor.py\<close>)\<close>

text \<open>
  The regular expressions of the extractor, each as the scan \<^verbatim>\<open>re.findall\<close> performs:
  leftmost match first, greedy, the next search starting where the match ended.

  \<^verbatim>\<open>["\']([^"\']+)["\']\<close>: a quote, the longest non-empty run without quotes, a quote.
\<close>

definition is_quote :: "pychar \<Rightarrow> bool" where
  "is_quote c \<longleftrightarrow> c = 34 \<or> c = 39"

function quoted_phrases :: "pystr \<Rightarrow> pystr list" where
  "quoted_phrases [] = []"
| "quoted_phrases (c # cs) =
     (if is_quote c \<and> takeWhile (\<lambda>x. \<not> is_quote x) cs \<noteq> [] \<and>
         dropWhile (\<lambda>x. \<not> is_quote x) cs \<noteq> []
      then takeWhile (\<lambda>x. \<not> is_quote x) cs #
           quoted_phrases (tl (dropWhile (\<lambda>x. \<not> is_quote x) cs))
      else quoted_phrases cs)"
  by pat_completeness auto
termination
proof (relation "measure length")
  fix c :: pychar and cs :: pystr
  have "length (tl (dropWhile (\<lambda>x. \<not> is_quote x) cs)) \<le> length cs"
    using length_dropWhile_le [of "\<lambda>x. \<not> is_quote x" cs] by simp
  then show "(tl (dropWhile (\<lambda>x. \<not> is_quote x) cs), c # cs) \<in> measure length"
    by simp
qed simp_all

text \<open>\<^verbatim>\<open>#(\w+)\<close> and \<^verbatim>\<open>@(\w+)\<close>: the tag character, then the longest non-empty run
  of word characters.\<close>

function tagged_words :: "unicode \<Rightarrow> pychar \<Rightarrow> pystr \<Rightarrow> pystr list" where
  "tagged_words U t [] = []"
| "tagged_words U t (c # cs) =
     (if c = t \<and> takeWhile (isword U) cs \<noteq> []
      then takeWhile (isword U) cs # tagged_words U t (dropWhile (isword U) cs)
      else tagged_words U t cs)"
  by pat_completeness auto
termination
proof (relation "measure (\<lambda>(U, t, s). length s)")
  fix U :: unicode and t c :: pychar and cs :: pystr
  show "((U, t, dropWhile (isword U) cs), (U, t, c # cs)) \<in> measure (\<lambda>(U, t, s). length s)"
    using length_dropWhile_le [of "isword U" cs] by simp
qed simp_all

text \<open>
  \<^verbatim>\<open>\b([A-Z][a-z]+(?:\s+[A-Z][a-z]+)+)\b\<close>. A capitalised word is an ASCII capital and
  the longest non-empty run of ASCII small letters; a group is the longest non-empty run
  of white space and a capitalised word. The match takes as many groups as it can and
  gives groups back until a word boundary follows. It starts only after a non-word
  character (or at the start), which the scan carries along as \<open>prev_word\<close>.
\<close>

definition cap_word :: "pystr \<Rightarrow> (pystr \<times> pystr) option" where
  "cap_word s =
     (case s of
        [] \<Rightarrow> None
      | c # cs \<Rightarrow>
          if is_AZ c \<and> takeWhile is_az cs \<noteq> []
          then Some (c # takeWhile is_az cs, dropWhile is_az cs) else None)"

definition cap_group :: "pystr \<Rightarrow> (pystr \<times> pystr) option" where
  "cap_group s =
     (if takeWhile isspace s \<noteq> []
      then (case cap_word (dropWhile isspace s) of
              None \<Rightarrow> None
            | Some (w, rest) \<Rightarrow> Some (takeWhile isspace s @ w, rest))
      else None)"

lemma cap_word_shorter: "cap_word s = Some (w, rest) \<Longrightarrow> length rest < length s"
  using length_dropWhile_le [of is_az "tl s"]
  by (auto simp: cap_word_def less_Suc_eq_le split: list.splits if_splits)

lemma cap_group_shorter: "cap_group s = Some (g, rest) \<Longrightarrow> length rest < length s"
  using length_dropWhile_le [of isspace s]
  by (auto simp: cap_group_def split: if_splits option.splits dest!: cap_word_shorter)

function cap_ends :: "pystr \<Rightarrow> pystr \<Rightarrow> (pystr \<times> pystr) list" where
  "cap_ends matched s =
     (case cap_group s of
        None \<Rightarrow> []
      | Some (g, rest) \<Rightarrow> (matched @ g, rest) # cap_ends (matched @ g) rest)"
  by pat_completeness auto
termination
  by (relation "measure (\<lambda>(matched, s). length s)") (auto dest: cap_group_shorter)

declare cap_ends.simps [simp del]

lemma cap_ends_None [simp]: "cap_group s = None \<Longrightarrow> cap_ends matched s = []"
  by (simp add: cap_ends.simps [of matched s])

lemma cap_ends_Some [simp]:
  "cap_group s = Some (g, rest) \<Longrightarrow>
   cap_ends matched s = (matched @ g, rest) # cap_ends (matched @ g) rest"
  by (simp add: cap_ends.simps [of matched s])

definition end_boundary :: "unicode \<Rightarrow> pystr \<Rightarrow> bool" where
  "end_boundary U rest = (case rest of [] \<Rightarrow> True | c # cs \<Rightarrow> \<not> isword U c)"

definition cap_phrase_at :: "unicode \<Rightarrow> pystr \<Rightarrow> (pystr \<times> pystr) option" where
  "cap_phrase_at U s =
     (case cap_word s of
        None \<Rightarrow> None
      | Some (w, rest) \<Rightarrow>
          (case filter (\<lambda>(p, r). end_boundary U r) (cap_ends w rest) of
             [] \<Rightarrow> None
           | c # cands \<Rightarrow> Some (last (c # cands))))"

lemma cap_ends_shorter: "(p, r) \<in> set (cap_ends matched s) \<Longrightarrow> length r < length s"
proof (induction matched s rule: cap_ends.induct)
  case (1 matched s)
  show ?case
  proof (cases "cap_group s")
    case None
    with "1.prems" show ?thesis by (simp add: cap_ends.simps [of matched s])
  next
    case (Some a)
    obtain g rest where a: "a = (g, rest)" by (cases a)
    from Some a have less: "length rest < length s" by (auto dest: cap_group_shorter)
    from "1.prems" Some a have "(p, r) = (matched @ g, rest) \<or> (p, r) \<in> set (cap_ends (matched @ g) rest)"
      by (simp add: cap_ends.simps [of matched s])
    then show ?thesis
    proof
      assume "(p, r) = (matched @ g, rest)"
      with less show ?thesis by simp
    next
      assume "(p, r) \<in> set (cap_ends (matched @ g) rest)"
      then have "length r < length rest" using "1.IH" Some a by simp
      with less show ?thesis by simp
    qed
  qed
qed

lemma cap_phrase_at_shorter:
  assumes "cap_phrase_at U s = Some (p, rest)"
  shows "length rest < length s"
proof -
  from assms obtain w r0 where w: "cap_word s = Some (w, r0)"
    by (auto simp: cap_phrase_at_def split: option.splits)
  let ?cands = "filter (\<lambda>(p, r). end_boundary U r) (cap_ends w r0)"
  from assms w have ne: "?cands \<noteq> []" and eq: "(p, rest) = last ?cands"
    by (auto simp: cap_phrase_at_def split: list.splits)
  from ne have "last ?cands \<in> set ?cands" by (rule last_in_set)
  with eq have "(p, rest) \<in> set (cap_ends w r0)" by simp
  then have "length rest < length r0" by (rule cap_ends_shorter)
  moreover from w have "length r0 < length s" by (rule cap_word_shorter)
  ultimately show ?thesis by simp
qed

function cap_phrases_from :: "unicode \<Rightarrow> bool \<Rightarrow> pystr \<Rightarrow> pystr list" where
  "cap_phrases_from U prev_word [] = []"
| "cap_phrases_from U prev_word (c # cs) =
     (if prev_word then cap_phrases_from U (isword U c) cs
      else (case cap_phrase_at U (c # cs) of
              None \<Rightarrow> cap_phrases_from U (isword U c) cs
            | Some (p, rest) \<Rightarrow> p # cap_phrases_from U True rest))"
  by pat_completeness auto
termination
  by (relation "measure (\<lambda>(U, prev_word, s). length s)") (auto dest: cap_phrase_at_shorter)

definition cap_phrases :: "unicode \<Rightarrow> pystr \<Rightarrow> pystr list" where
  "cap_phrases U text = cap_phrases_from U False text"

text \<open>The loops that append to \<^verbatim>\<open>queries\<close>, and the final loop that removes
  duplicates.\<close>

fun add_quoted :: "pystr list \<Rightarrow> pystr list \<Rightarrow> pystr list" where
  "add_quoted queries [] = queries"
| "add_quoted queries (phrase # phrases) =
     add_quoted
       (if length phrase > 3 \<and> phrase \<notin> set queries then queries @ [phrase] else queries)
       phrases"

fun add_capitalized :: "pystr list \<Rightarrow> pystr list \<Rightarrow> pystr list" where
  "add_capitalized queries [] = queries"
| "add_capitalized queries (phrase # phrases) =
     add_capitalized
       (if phrase \<notin> set queries \<and> length phrase > 5 then queries @ [phrase] else queries)
       phrases"

fun add_mentions :: "pystr list \<Rightarrow> pystr list \<Rightarrow> pystr list" where
  "add_mentions queries [] = queries"
| "add_mentions queries (mention # mentions) =
     add_mentions
       (if length mention > 3 then queries @ [mention @ ascii '' social media''] else queries)
       mentions"

fun unique_queries :: "unicode \<Rightarrow> pystr list \<Rightarrow> pystr set \<Rightarrow> pystr list \<Rightarrow> pystr list" where
  "unique_queries U [] seen unique = unique"
| "unique_queries U (q # qs) seen unique =
     (let q_lower = strip (str_lower U q)
      in if q_lower \<notin> seen \<and> length q_lower > 3
         then unique_queries U qs (insert q_lower seen) (unique @ [q])
         else unique_queries U qs seen unique)"

definition first_query :: "pystr \<Rightarrow> pystr" where
  "first_query text =
     (if length text \<le> 200 then text
      else (let first_sentence = takeWhile (\<lambda>c. c \<noteq> 46 \<and> c \<noteq> 33 \<and> c \<noteq> 63) text
            in if length first_sentence \<le> 200 then first_sentence else take 200 text))"

definition extract_search_queries :: "unicode \<Rightarrow> pystr \<Rightarrow> pystr list" where
  "extract_search_queries U post_text =
     (let text = strip post_text;
          queries1 = [first_query text];
          queries2 = add_quoted queries1 (take 2 (quoted_phrases text));
          hashtags = tagged_words U 35 text;
          hashtag_query = join (ascii '' '') (take 3 hashtags);
          queries3 = (if hashtags \<noteq> [] \<and> hashtag_query \<notin> set queries2
                      then queries2 @ [hashtag_query] else queries2);
          queries4 = add_capitalized queries3 (take 2 (cap_phrases U text));
          queries5 = add_mentions queries4 (take 1 (tagged_words U 64 text));
          unique = unique_queries U queries5 {} []
      in if unique \<noteq> [] then take 3 unique else [take 200 text])"

section \<open>Search (\<^verbatim>\<open>services/search.py\<close>)\<close>

text \<open>
  The two providers are calls to the outside; \<^verbatim>\<open>SearchService.__init__\<close> sets the
  fallback provider only when the settings hold a Brave key.
\<close>

definition fallback_provider :: "settings \<Rightarrow> bool" where
  "fallback_provider cfg =
     (case brave_api_key cfg of None \<Rightarrow> False | Some k \<Rightarrow> k \<noteq> [])"

text \<open>The loop over the queries, with its two nested \<^verbatim>\<open>try\<close> blocks: \<open>all_results\<close>
  grows by the results of each call that returns.\<close>

fun search_loop ::
  "services \<Rightarrow> settings \<Rightarrow> pystr list \<Rightarrow> int \<Rightarrow> SearchResult list \<Rightarrow> trace \<Rightarrow>
   SearchResult list \<times> trace" where
  "search_loop env cfg [] max_results_per_query all_results tr = (all_results, tr)"
| "search_loop env cfg (query # queries) max_results_per_query all_results tr =
     (let r = tavily_search env tr query max_results_per_query;
          tr1 = tr @ [TavilySearch query max_results_per_query r]
      in case r of
           Inr results \<Rightarrow>
             search_loop env cfg queries max_results_per_query (all_results @ results) tr1
         | Inl e \<Rightarrow>
             if fallback_provider cfg
             then (let r2 = brave_search env tr1 query max_results_per_query;
                       tr2 = tr1 @ [BraveSearch query max_results_per_query r2]
                   in case r2 of
                        Inr results \<Rightarrow>
                          search_loop env cfg queries max_results_per_query
                            (all_results @ results) tr2
                      | Inl fallback_error \<Rightarrow>
                          search_loop env cfg queries max_results_per_query all_results tr2)
             else search_loop env cfg queries max_results_per_query all_results tr1)"

text \<open>The loop that keeps the first result of each URL.\<close>

fun unique_by_url ::
  "SearchResult list \<Rightarrow> pystr set \<Rightarrow> SearchResult list \<Rightarrow> SearchResult list" where
  "unique_by_url [] seen_urls unique_results = unique_results"
| "unique_by_url (result # results) seen_urls unique_results =
     (if url result \<notin> seen_urls
      then unique_by_url results (insert (url result) seen_urls) (unique_results @ [result])
      else unique_by_url results seen_urls unique_results)"

text \<open>
  \<^verbatim>\<open>unique_results.sort(key=lambda x: x.score or 0, reverse=True)\<close>: Python's sort is
  stable, and with \<^verbatim>\<open>reverse=True\<close> it reverses the list, sorts it stably in ascending
  order of the key and reverses the result, so that equal keys keep their order.
\<close>

definition score_or_0 :: "SearchResult \<Rightarrow> real" where
  "score_or_0 x = (case score x of None \<Rightarrow> 0 | Some v \<Rightarrow> v)"

definition sort_reverse :: "('a \<Rightarrow> real) \<Rightarrow> 'a list \<Rightarrow> 'a list" where
  "sort_reverse key xs = rev (sort_key key (rev xs))"

definition rank_results :: "settings \<Rightarrow> SearchResult list \<Rightarrow> SearchResult list" where
  "rank_results cfg all_results =
     slice_to (max_search_results cfg)
       (sort_reverse score_or_0 (unique_by_url all_results {} []))"

definition search ::
  "services \<Rightarrow> settings \<Rightarrow> pystr list \<Rightarrow> int \<Rightarrow> trace \<Rightarrow> SearchResult list \<times> trace" where
  "search env cfg queries max_results_per_query tr =
     (case search_loop env cfg queries max_results_per_query [] tr of
        (all_results, tr') \<Rightarrow> (rank_results cfg all_results, tr'))"

section \<open>Cache (\<^verbatim>\<open>services/cache.py\<close>)\<close>

text \<open>
  The cache maps a key to a value and the time it was stored. Times are microseconds,
  the resolution of \<^verbatim>\<open>datetime\<close>; the time-to-live is \<^verbatim>\<open>timedelta(seconds=cache_ttl)\<close>.
  The value is the dictionary \<^verbatim>\<open>explain\<close> stores, with its two entries, so it is never
  an empty (false) dictionary.
\<close>

record cached_value =
  cached_bullets :: "pystr list"
  cached_sources :: "Source list"

type_synonym cache = "pystr \<rightharpoonup> cached_value \<times> int"

definition ttl :: "settings \<Rightarrow> int" where
  "ttl cfg = cache_ttl cfg * 1000000"

definition generate_key :: "services \<Rightarrow> unicode \<Rightarrow> pystr \<Rightarrow> pystr" where
  "generate_key env U text =
     (let normalized = strip (str_lower U text)
      in ascii ''explain:'' @ take 16 (sha256_hexdigest env normalized))"

definition cache_get ::
  "services \<Rightarrow> unicode \<Rightarrow> settings \<Rightarrow> int \<Rightarrow> cache \<Rightarrow> pystr \<Rightarrow> cached_value option \<times> cache" where
  "cache_get env U cfg t c text =
     (let key = generate_key env U text
      in case c key of
           None \<Rightarrow> (None, c)
         | Some (v, timestamp) \<Rightarrow>
             if t - timestamp > ttl cfg then (None, c(key := None)) else (Some v, c))"

definition cache_set ::
  "services \<Rightarrow> unicode \<Rightarrow> int \<Rightarrow> cache \<Rightarrow> pystr \<Rightarrow> cached_value \<Rightarrow> cache" where
  "cache_set env U t c text v = c(generate_key env U text \<mapsto> (v, t))"

definition cache_clear :: "cache \<Rightarrow> cache" where
  "cache_clear c = Map.empty"

section \<open>Prompt (\<^verbatim>\<open>prompts.py\<close>)\<close>

text \<open>The template \<^verbatim>\<open>EXPLANATION_PROMPT\<close>, cut at its two placeholders.\<close>

definition PROMPT_HEAD :: pystr where
  "PROMPT_HEAD =
     ascii ''You are explaining a social media post to someone who is unfamiliar with its context or references.'' @
     [10, 10] @
     ascii ''ORIGINAL POST:'' @
     [10, 34]"

definition PROMPT_MIDDLE :: pystr where
  "PROMPT_MIDDLE =
     [34, 10, 10] @
     ascii ''SEARCH RESULTS FOR CONTEXT:'' @
     [10]"

definition PROMPT_TAIL :: pystr where
  "PROMPT_TAIL =
     [10, 10] @
     ascii ''INSTRUCTIONS:'' @
     [10] @
     ascii ''1. Generate 3-5 bullet points explaining what this post is about'' @
     [10] @
     ascii ''2. Each bullet should be concise (1-2 sentences max)'' @
     [10] @
     ascii ''3. Focus on:'' @
     [10] @
     ascii ''   - What is being referenced? (terms, people, events, memes)'' @
     [10] @
     ascii ''   - Why does it matter or why is it interesting?'' @
     [10] @
     ascii ''   - Key background context needed to understand the post'' @
     [10] @
     ascii ''4. Add citation numbers [1], [2], etc. at the end of statements, referencing the sources above'' @
     [10] @
     ascii ''5. Only include information that is supported by the search results'' @
     [10] @
     ascii ''6. If search results don'' @
     [39] @
     ascii ''t provide enough context, acknowledge this honestly'' @
     [10, 10] @
     ascii ''RESPONSE FORMAT:'' @
     [10] @
     ascii ''Return ONLY the bullet points in this exact format:'' @
     [10, 8226] @
     ascii '' [First explanation point] [1]'' @
     [10, 8226] @
     ascii '' [Second explanation point] [2]  '' @
     [10, 8226] @
     ascii '' [Third explanation point] [1][3]'' @
     [10] @
     ascii ''(etc.)'' @
     [10, 10] @
     ascii ''Do NOT include any preamble, headers, or additional text. Start directly with the first bullet point.''"

text \<open>A result is numbered from 1 in the context block.\<close>

definition context_part :: "nat \<Rightarrow> SearchResult \<Rightarrow> pystr" where
  "context_part i result =
     ascii ''['' @ str_nat i @ ascii ''] '' @ title result @ [10] @
     ascii ''    URL: '' @ url result @ [10] @
     ascii ''    Content: '' @ snippet result"

definition enumerate_from :: "nat \<Rightarrow> 'a list \<Rightarrow> (nat \<times> 'a) list" where
  "enumerate_from n xs = zip [n ..< n + length xs] xs"

definition build_explanation_prompt :: "pystr \<Rightarrow> SearchResult list \<Rightarrow> pystr" where
  "build_explanation_prompt post_text search_results =
     (let context_parts = map (\<lambda>(i, result). context_part i result) (enumerate_from 1 search_results);
          search_context =
            (if context_parts \<noteq> [] then join [10, 10] context_parts
             else ascii ''No relevant search results found.'')
      in PROMPT_HEAD @ post_text @ PROMPT_MIDDLE @ search_context @ PROMPT_TAIL)"

section \<open>Image processing (\<^verbatim>\<open>services/image_processor.py\<close>)\<close>

definition MAX_IMAGE_SIZE :: nat where
  "MAX_IMAGE_SIZE = 20 * 1024 * 1024"

text \<open>The download catches every exception of the request and answers \<^verbatim>\<open>None\<close>.\<close>

definition download_image :: "services \<Rightarrow> pystr \<Rightarrow> trace \<Rightarrow> nat list option \<times> trace" where
  "download_image env u tr =
     (let r = http_get env tr u;
          tr' = tr @ [HttpGet u r]
      in case r of
           Inl e \<Rightarrow> (None, tr')
         | Inr response \<Rightarrow>
             if \<not> startswith (content_type response) (ascii ''image/'') then (None, tr')
             else if length (content response) > MAX_IMAGE_SIZE then (None, tr')
             else (Some (content response), tr'))"

definition get_image_media_type :: "services \<Rightarrow> unicode \<Rightarrow> pystr \<Rightarrow> pystr" where
  "get_image_media_type env U u =
     (let ext = str_lower U (path_suffix env (takeWhile (\<lambda>c. c \<noteq> 63) u))
      in if ext = ascii ''.jpg'' then ascii ''image/jpeg''
         else if ext = ascii ''.jpeg'' then ascii ''image/jpeg''
         else if ext = ascii ''.png'' then ascii ''image/png''
         else if ext = ascii ''.gif'' then ascii ''image/gif''
         else if ext = ascii ''.webp'' then ascii ''image/webp''
         else ascii ''image/jpeg'')"

definition prepare_image_for_vision ::
  "services \<Rightarrow> unicode \<Rightarrow> pystr \<Rightarrow> trace \<Rightarrow> image_data option \<times> trace" where
  "prepare_image_for_vision env U u tr =
     (case download_image env u tr of
        (None, tr') \<Rightarrow> (None, tr')
      | (Some image_bytes, tr') \<Rightarrow>
          if image_bytes = [] then (None, tr')
          else (Some (ImageData (ascii ''data:'' @ get_image_media_type env U u @
                                  ascii '';base64,'' @ b64encode env image_bytes)), tr'))"

section \<open>Language models (\<^verbatim>\<open>services/llm.py\<close>)\<close>

text \<open>
  \<^verbatim>\<open>OpenAIProvider\<close> passes its request to the client and raises what the client
  raises. \<^verbatim>\<open>LLMService.generate\<close> and \<^verbatim>\<open>LLMService.stream\<close> use the default provider,
  which is the OpenAI one.
\<close>

definition OpenAIProvider_generate ::
  "services \<Rightarrow> pystr \<Rightarrow> image_data option \<Rightarrow> trace \<Rightarrow> (exn + pystr) \<times> trace" where
  "OpenAIProvider_generate env prompt img tr =
     (let r = openai_generate env tr prompt img
      in (r, tr @ [OpenAIGenerate prompt img r]))"


definition LLMService_generate ::
  "services \<Rightarrow> pystr \<Rightarrow> image_data option \<Rightarrow> trace \<Rightarrow> (exn + pystr) \<times> trace" where
  "LLMService_generate env prompt img tr = OpenAIProvider_generate env prompt img tr"


text \<open>\<^verbatim>\<open>AnthropicProvider\<close>: its two fields, its list of models, and the content it
  sends.\<close>

record AnthropicProvider =
  available :: bool
  model :: "pystr option"

definition MODEL_FALLBACKS :: "pystr list" where
  "MODEL_FALLBACKS =
     [ascii ''claude-3-5-sonnet-20241022'',
      ascii ''claude-3-5-sonnet-20240620'',
      ascii ''claude-3-opus-20240229'',
      ascii ''claude-3-sonnet-20240229'',
      ascii ''claude-3-haiku-20240307'']"

definition AnthropicProvider_init :: "bool \<Rightarrow> pystr option \<Rightarrow> AnthropicProvider" where
  "AnthropicProvider_init package_installed model_arg =
     (if package_installed
      then \<lparr>available = True,
            model = (case model_arg of
                       None \<Rightarrow> Some (hd MODEL_FALLBACKS)
                     | Some m \<Rightarrow> if m \<noteq> [] then Some m else Some (hd MODEL_FALLBACKS))\<rparr>
      else \<lparr>available = False, model = None\<rparr>)"

definition index_error :: exn where
  "index_error = Exception (ascii ''list index out of range'')"

definition build_content :: "pystr \<Rightarrow> image_data option \<Rightarrow> exn + content" where
  "build_content prompt img =
     (case img of
        None \<Rightarrow> Inr \<lparr>content_image = None, content_text = prompt\<rparr>
      | Some (ImageData u) \<Rightarrow>
          if startswith u (ascii ''data:'')
          then (let media_parts = split_on 58 (takeWhile (\<lambda>c. c \<noteq> 59) u);
                    data_parts = split_on 44 u
                in if length media_parts < 2 \<or> length data_parts < 2 then Inl index_error
                   else Inr \<lparr>content_image = Some (media_parts ! 1, data_parts ! 1),
                             content_text = prompt\<rparr>)
          else Inr \<lparr>content_image = None, content_text = prompt\<rparr>)"

text \<open>The test of the \<^verbatim>\<open>except\<close> clause: the loop goes on to the next model only for
  an error whose text holds \<^verbatim>\<open>404\<close> or, in lower case, \<^verbatim>\<open>not_found\<close>.\<close>

definition model_not_found :: "unicode \<Rightarrow> exn \<Rightarrow> bool" where
  "model_not_found U e \<longleftrightarrow>
     \<not> (\<not> contains (str_of e) (ascii ''404'') \<and>
        \<not> contains (str_lower U (str_of e)) (ascii ''not_found''))"

definition str_error :: "exn option \<Rightarrow> pystr" where
  "str_error last_error = (case last_error of None \<Rightarrow> ascii ''None'' | Some e \<Rightarrow> str_of e)"

text \<open>The loop of \<^verbatim>\<open>generate\<close> over the models that are left. A response sets
  \<^verbatim>\<open>self.model\<close> before its first content block is read.\<close>

fun generate_loop ::
  "services \<Rightarrow> unicode \<Rightarrow> content \<Rightarrow> pystr list \<Rightarrow> exn option \<Rightarrow> AnthropicProvider \<Rightarrow> trace \<Rightarrow>
   (exn + pystr) \<times> AnthropicProvider \<times> trace" where
  "generate_loop env U c [] last_error p tr =
     (Inl (Exception (ascii ''Failed to generate with any Claude model: '' @ str_error last_error)),
      p, tr)"
| "generate_loop env U c (m # models) last_error p tr =
     (let r = messages_create env tr m c;
          tr' = tr @ [MessagesCreate m c r];
          attempt =
            (case r of
               Inl e \<Rightarrow> (Inl e, p)
             | Inr blocks \<Rightarrow>
                 (case blocks of
                    [] \<Rightarrow> (Inl index_error, p\<lparr>model := Some m\<rparr>)
                  | text # blocks' \<Rightarrow> (Inr text, p\<lparr>model := Some m\<rparr>)))
      in case attempt of
           (Inr text, p') \<Rightarrow> (Inr text, p', tr')
         | (Inl e, p') \<Rightarrow>
             if \<not> model_not_found U e then (Inl e, p', tr')
             else generate_loop env U c models (Some e) p' tr')"

definition not_available :: exn where
  "not_available = Exception (ascii ''Anthropic provider not available'')"

definition AnthropicProvider_generate ::
  "services \<Rightarrow> unicode \<Rightarrow> pystr \<Rightarrow> image_data option \<Rightarrow> AnthropicProvider \<Rightarrow> trace \<Rightarrow>
   (exn + pystr) \<times> AnthropicProvider \<times> trace" where
  "AnthropicProvider_generate env U prompt img p tr =
     (if \<not> available p then (Inl not_available, p, tr)
      else (case build_content prompt img of
              Inl e \<Rightarrow> (Inl e, p, tr)
            | Inr c \<Rightarrow> generate_loop env U c MODEL_FALLBACKS None p tr))"

text \<open>The loop of \<^verbatim>\<open>stream\<close>: \<open>yielded\<close> are the chunks given to the consumer so far.
  \<^verbatim>\<open>self.model\<close> is set once the stream is open.\<close>

fun stream_loop ::
  "services \<Rightarrow> unicode \<Rightarrow> content \<Rightarrow> pystr list \<Rightarrow> exn option \<Rightarrow> pystr list \<Rightarrow>
   AnthropicProvider \<Rightarrow> trace \<Rightarrow> streamed \<times> AnthropicProvider \<times> trace" where
  "stream_loop env U c [] last_error yielded p tr =
     ((yielded,
       Some (Exception (ascii ''Failed to stream with any Claude model: '' @ str_error last_error))),
      p, tr)"
| "stream_loop env U c (m # models) last_error yielded p tr =
     (let r = messages_stream env tr m c;
          tr' = tr @ [MessagesStream m c r]
      in case r of
           Inr (texts, None) \<Rightarrow> ((yielded @ texts, None), p\<lparr>model := Some m\<rparr>, tr')
         | Inr (texts, Some e) \<Rightarrow>
             if \<not> model_not_found U e then ((yielded @ texts, Some e), p\<lparr>model := Some m\<rparr>, tr')
             else stream_loop env U c models (Some e) (yielded @ texts) (p\<lparr>model := Some m\<rparr>) tr'
         | Inl e \<Rightarrow>
             if \<not> model_not_found U e then ((yielded, Some e), p, tr')
             else stream_loop env U c models (Some e) yielded p tr')"

definition AnthropicProvider_stream ::
  "services \<Rightarrow> unicode \<Rightarrow> pystr \<Rightarrow> image_data option \<Rightarrow> AnthropicProvider \<Rightarrow> trace \<Rightarrow>
   streamed \<times> AnthropicProvider \<times> trace" where
  "AnthropicProvider_stream env U prompt img p tr =
     (if \<not> available p then (([], Some not_available), p, tr)
      else (case build_content prompt img of
              Inl e \<Rightarrow> (([], Some e), p, tr)
            | Inr c \<Rightarrow> stream_loop env U c MODEL_FALLBACKS None [] p tr))"

section \<open>The explainer (\<^verbatim>\<open>services/explainer.py\<close>)\<close>

subsection \<open>Parsing the bullets\<close>

text \<open>\<^verbatim>\<open>re.sub(r'^[\<bullet>\-\*]\s*', '', line)\<close> removes one leading marker and the white
  space after it; \<^verbatim>\<open>re.sub(r'^\d+[\.\)]\s*', '', cleaned)\<close> removes a leading number
  that a full stop or a closing parenthesis follows, and the white space after it.\<close>

definition sub_bullet_marker :: "pystr \<Rightarrow> pystr" where
  "sub_bullet_marker line =
     (case line of
        [] \<Rightarrow> []
      | c # cs \<Rightarrow> if c = 8226 \<or> c = 45 \<or> c = 42 then dropWhile isspace cs else line)"

definition sub_number_marker :: "unicode \<Rightarrow> pystr \<Rightarrow> pystr" where
  "sub_number_marker U line =
     (case dropWhile (isdigit U) line of
        [] \<Rightarrow> line
      | c # cs \<Rightarrow>
          if takeWhile (isdigit U) line \<noteq> [] \<and> (c = 46 \<or> c = 41) then dropWhile isspace cs
          else line)"

fun bullet_lines :: "unicode \<Rightarrow> pystr list \<Rightarrow> pystr list \<Rightarrow> pystr list" where
  "bullet_lines U [] bs = bs"
| "bullet_lines U (l # lines) bs =
     (let line = strip l
      in if line = [] then bullet_lines U lines bs
         else (let cleaned = sub_number_marker U (sub_bullet_marker line)
               in if cleaned \<noteq> [] \<and> length cleaned > 10
                  then bullet_lines U lines (bs @ [cleaned])
                  else bullet_lines U lines bs))"

definition parse_bullets :: "unicode \<Rightarrow> pystr \<Rightarrow> pystr list" where
  "parse_bullets U raw_response =
     (let lines = split_on 10 (strip raw_response);
          bs = bullet_lines U lines []
      in take 5 (if bs = [] \<and> strip raw_response \<noteq> [] then [strip raw_response] else bs))"

subsection \<open>Building the sources\<close>

text \<open>\<^verbatim>\<open>re.findall(r'\[(\d+)\]', response)\<close>: an opening bracket, the longest non-empty
  run of digits, a closing bracket; the digits of each match.\<close>

function findall_citations :: "unicode \<Rightarrow> pystr \<Rightarrow> pystr list" where
  "findall_citations U [] = []"
| "findall_citations U (c # cs) =
     (if c = 91 \<and> takeWhile (isdigit U) cs \<noteq> [] \<and>
         (case dropWhile (isdigit U) cs of [] \<Rightarrow> False | d # ds \<Rightarrow> d = 93)
      then takeWhile (isdigit U) cs # findall_citations U (tl (dropWhile (isdigit U) cs))
      else findall_citations U cs)"
  by pat_completeness auto
termination
proof (relation "measure (\<lambda>(U, s). length s)")
  fix U :: unicode and c :: pychar and cs :: pystr
  have "length (tl (dropWhile (isdigit U) cs)) \<le> length cs"
    using length_dropWhile_le [of "isdigit U" cs] by simp
  then show "((U, tl (dropWhile (isdigit U) cs)), (U, c # cs)) \<in> measure (\<lambda>(U, s). length s)"
    by simp
qed simp_all

text \<open>\<^verbatim>\<open>int(m)\<close> of a string of decimal digits, as an unbounded integer (the limit
  CPython can put on the number of digits of such a string is left out).\<close>

definition int_of_digits :: "unicode \<Rightarrow> pystr \<Rightarrow> nat" where
  "int_of_digits U ds =
     foldl (\<lambda>n d. 10 * n + (case digit_value U d of None \<Rightarrow> 0 | Some v \<Rightarrow> v)) 0 ds"

definition citations :: "unicode \<Rightarrow> pystr \<Rightarrow> nat set" where
  "citations U response = set (map (int_of_digits U) (findall_citations U response))"

definition make_source :: "nat \<Rightarrow> SearchResult \<Rightarrow> Source" where
  "make_source i result =
     \<lparr>source_id = i, source_title = title result, source_url = url result,
      source_snippet = (if snippet result \<noteq> [] then Some (take 200 (snippet result)) else None)\<rparr>"

fun sources_loop :: "nat set \<Rightarrow> (nat \<times> SearchResult) list \<Rightarrow> Source list \<Rightarrow> Source list" where
  "sources_loop cited [] srcs = srcs"
| "sources_loop cited ((i, result) # rest) srcs =
     (if i \<in> cited \<or> i \<le> 3 then sources_loop cited rest (srcs @ [make_source i result])
      else sources_loop cited rest srcs)"

definition build_sources :: "unicode \<Rightarrow> SearchResult list \<Rightarrow> pystr \<Rightarrow> Source list" where
  "build_sources U search_results response =
     sources_loop (citations U response) (enumerate_from 1 search_results) []"

subsection \<open>The pipeline\<close>

text \<open>The state of a \<^verbatim>\<open>PostExplainer\<close>: its cache, and the calls made so far.\<close>

record explainer =
  cache :: cache
  trace :: trace

definition truthy :: "pystr option \<Rightarrow> bool" where
  "truthy s = (case s of None \<Rightarrow> False | Some u \<Rightarrow> u \<noteq> [])"

definition or_empty :: "pystr option \<Rightarrow> pystr" where
  "or_empty s = (case s of None \<Rightarrow> [] | Some u \<Rightarrow> u)"

definition cache_key_of :: "pystr \<Rightarrow> pystr option \<Rightarrow> pystr" where
  "cache_key_of post_text image_url = post_text @ ascii '':'' @ or_empty image_url"

definition explain ::
  "services \<Rightarrow> unicode \<Rightarrow> settings \<Rightarrow> pystr \<Rightarrow> pystr option \<Rightarrow> bool \<Rightarrow> explainer \<Rightarrow>
   (exn + ExplainResponse) \<times> explainer" where
  "explain env U cfg post_text image_url use_cache s =
     (let cache_key = cache_key_of post_text image_url;
          (hit, c1) = (if use_cache
                       then cache_get env U cfg (now env (trace s)) (cache s) cache_key
                       else (None, cache s))
      in case hit of
           Some v \<Rightarrow>
             (Inr \<lparr>bullets = cached_bullets v, sources = cached_sources v, cached = True\<rparr>,
              s\<lparr>cache := c1\<rparr>)
         | None \<Rightarrow>
             (let (img, tr1) = (if truthy image_url
                                  then prepare_image_for_vision env U (or_empty image_url) (trace s)
                                  else (None, trace s));
                  queries = extract_search_queries U post_text;
                  (search_results, tr2) = search env cfg queries 5 tr1;
                  prompt = build_explanation_prompt post_text search_results;
                  (raw, tr3) = LLMService_generate env prompt img tr2
              in case raw of
                   Inl e \<Rightarrow> (Inl e, \<lparr>cache = c1, trace = tr3\<rparr>)
                 | Inr raw_response \<Rightarrow>
                     (let bs = parse_bullets U raw_response;
                          srcs = build_sources U search_results raw_response;
                          response = \<lparr>bullets = bs, sources = srcs, cached = False\<rparr>;
                          c2 = (if use_cache
                                then cache_set env U (now env tr3) c1 cache_key
                                       \<lparr>cached_bullets = bs, cached_sources = srcs\<rparr>
                                else c1)
                      in (Inr response, \<lparr>cache = c2, trace = tr3\<rparr>))))"



section \<open>The streaming route (\<^verbatim>\<open>api/routes.py\<close>)\<close>




section \<open>Concrete instances\<close>

text \<open>A runtime that knows ASCII only: it agrees with Python on every string of ASCII
  characters and on the bullet U+2022.\<close>

definition ascii_lower :: "pystr \<Rightarrow> pystr" where
  "ascii_lower s = map (\<lambda>c. if 65 \<le> c \<and> c \<le> 90 then c + 32 else c) s"

definition ascii_only :: unicode where
  "ascii_only = \<lparr>uni_decimal = (\<lambda>c. None), uni_alnum = (\<lambda>c. False), str_lower = ascii_lower\<rparr>"

text \<open>Services for the examples: the search answers one result, the model one bullet
  that cites it; the clock counts the calls made; the digest is a stand-in that returns
  its input, since only the equality of keys matters to the cache.\<close>

definition demo_result :: SearchResult where
  "demo_result =
     \<lparr>title = ascii ''T'', url = ascii ''http://x'', snippet = ascii ''snip'', score = Some 1\<rparr>"

definition demo_services :: services where
  "demo_services =
     \<lparr>http_get = (\<lambda>tr u. Inl (Exception (ascii ''offline''))),
      tavily_search = (\<lambda>tr q n. Inr [demo_result]),
      brave_search = (\<lambda>tr q n. Inr []),
      openai_generate = (\<lambda>tr p i. Inr (ascii ''- An answer that is long enough [1]'')),
      openai_stream = (\<lambda>tr p i. ([ascii ''An '', ascii ''answer''], None)),
      messages_create = (\<lambda>tr m c. Inr [ascii ''text'']),
      messages_stream = (\<lambda>tr m c. Inr ([ascii ''text''], None)),
      now = (\<lambda>tr. int (length tr)),
      sha256_hexdigest = (\<lambda>s. s),
      b64encode = (\<lambda>bs. []),
      path_suffix = (\<lambda>p. [])\<rparr>"

definition demo_settings :: settings where
  "demo_settings =
     \<lparr>brave_api_key = None, anthropic_api_key = None, max_search_results = 8,
      cache_ttl = 86400\<rparr>"

definition demo_value :: cached_value where
  "demo_value = \<lparr>cached_bullets = [ascii ''A bullet stored earlier''], cached_sources = []\<rparr>"

definition demo_key :: pystr where
  "demo_key = generate_key demo_services ascii_only (cache_key_of (ascii ''a'') None)"

definition hit_state :: explainer where
  "hit_state = \<lparr>cache = [demo_key \<mapsto> (demo_value, 0)], trace = []\<rparr>"

definition failing_services :: services where
  "failing_services =
     demo_services\<lparr>openai_generate := (\<lambda>tr p i. Inl (Exception (ascii ''model down'')))\<rparr>"

definition stale_state :: explainer where
  "stale_state = \<lparr>cache = [demo_key \<mapsto> (demo_value, - 1000000000000)], trace = []\<rparr>"

definition empty_state :: explainer where
  "empty_state = \<lparr>cache = Map.empty, trace = []\<rparr>"

definition demo_response :: ExplainResponse where
  "demo_response =
     \<lparr>bullets = [ascii ''An answer that is long enough [1]''],
      sources = [make_source 1 demo_result], cached = False\<rparr>"










text \<open>A Claude whose first model has been retired: the API answers \<^verbatim>\<open>404\<close> for it
  and a text for every other model. Two calls of \<^verbatim>\<open>generate\<close> on one provider, the
  second on the state and the trace the first left.\<close>

definition not_found_error :: exn where
  "not_found_error = Exception (ascii ''Error code: 404 - model not_found_error'')"

definition first_model_retired :: services where
  "first_model_retired =
     demo_services\<lparr>messages_create :=
       (\<lambda>tr m c. if m = ascii ''claude-3-5-sonnet-20241022'' then Inl not_found_error
                  else Inr [ascii ''text''])\<rparr>"

definition claude :: AnthropicProvider where
  "claude = AnthropicProvider_init True None"

definition first_call ::
  "(exn + pystr) \<times> AnthropicProvider \<times> trace" where
  "first_call = AnthropicProvider_generate first_model_retired ascii_only (ascii ''prompt'') None claude []"

definition second_call ::
  "(exn + pystr) \<times> AnthropicProvider \<times> trace" where
  "second_call =
     AnthropicProvider_generate first_model_retired ascii_only (ascii ''prompt'') None
       (fst (snd first_call)) (snd (snd first_call))"

section \<open>Notions of the specification\<close>

text \<open>An entry is expired at time \<open>t\<close> when it is older than the time-to-live.\<close>

definition expired_at :: "settings \<Rightarrow> int \<Rightarrow> cache \<Rightarrow> pystr \<Rightarrow> bool" where
  "expired_at cfg t c key =
     (case c key of None \<Rightarrow> False | Some (v, timestamp) \<Rightarrow> t - timestamp > ttl cfg)"

fun is_search_event :: "event \<Rightarrow> bool" where
  "is_search_event (TavilySearch q n r) = True"
| "is_search_event (BraveSearch q n r) = True"
| "is_search_event e = False"

text \<open>Steps 2 to 4 of \<^verbatim>\<open>explain\<close> on a miss: the image, the search results and
  the trace after them. Only downloads and searches are recorded there.\<close>

definition gathered ::
  "services \<Rightarrow> unicode \<Rightarrow> settings \<Rightarrow> pystr \<Rightarrow> pystr option \<Rightarrow> trace \<Rightarrow>
   image_data option \<times> SearchResult list \<times> trace" where
  "gathered env U cfg post_text image_url tr =
     (let it = (if truthy image_url
                then prepare_image_for_vision env U (or_empty image_url) tr
                else (None, tr));
          sr = search env cfg (extract_search_queries U post_text) 5 (snd it)
      in (fst it, fst sr, snd sr))"

fun is_gather_event :: "event \<Rightarrow> bool" where
  "is_gather_event (HttpGet u r) = True"
| "is_gather_event (TavilySearch q n r) = True"
| "is_gather_event (BraveSearch q n r) = True"
| "is_gather_event e = False"




text \<open>
  The source filter in the words of the specification. A citation marker is an opening
  bracket, a non-empty string of decimal digits and a closing bracket, anywhere in the
  text; it cites the integer its digits write. The \<open>i\<close>-th result, counted from 1, is
  included when \<open>i\<close> is cited or \<open>i \<le> 3\<close>, in the order of the results.
\<close>

definition cited :: "unicode \<Rightarrow> pystr \<Rightarrow> nat \<Rightarrow> bool" where
  "cited U text i \<longleftrightarrow>
     (\<exists>pre ds post. text = pre @ [91] @ ds @ [93] @ post \<and> ds \<noteq> [] \<and>
        list_all (isdigit U) ds \<and> int_of_digits U ds = i)"


text \<open>
  Deduplication by URL in the words of the specification: the first result stays, and
  every later result with its URL goes.
\<close>

function first_by_url :: "SearchResult list \<Rightarrow> SearchResult list" where
  "first_by_url [] = []"
| "first_by_url (r # rs) = r # first_by_url (filter (\<lambda>x. url x \<noteq> url r) rs)"
  by pat_completeness auto
termination
  by (relation "measure length") (auto simp: less_Suc_eq_le)




text \<open>The models a list of calls to Claude attempted, in order.\<close>

definition attempted :: "event list \<Rightarrow> pystr list" where
  "attempted evs =
     concat (map (\<lambda>ev. case ev of MessagesCreate m c r \<Rightarrow> [m] | MessagesStream m c r \<Rightarrow> [m]
                          | _ \<Rightarrow> []) evs)"

section \<open>Evaluation on concrete inputs\<close>

lemmas char_defs = ascii_def isspace_def isword_def isdigit_def digit_value_def is_AZ_def
  is_az_def is_quote_def strip_def lstrip_def rstrip_def ascii_only_def ascii_lower_def

lemmas extract_defs = extract_search_queries_def first_query_def cap_phrases_def
  cap_phrase_at_def cap_word_def cap_group_def end_boundary_def

lemma extract_a: "extract_search_queries ascii_only (ascii ''a'') = [ascii ''a'']"
  by (simp add: extract_defs char_defs Let_def)

lemma search_demo: "search demo_services demo_settings [q] 5 tr = ([demo_result], tr @ [TavilySearch q 5 (Inr [demo_result])])"
  by (simp add: search_def rank_results_def demo_services_def demo_settings_def sort_reverse_def slice_to_def)

lemma search_failing: "search failing_services demo_settings [q] 5 tr = ([demo_result], tr @ [TavilySearch q 5 (Inr [demo_result])])"
  by (simp add: search_def rank_results_def failing_services_def demo_services_def demo_settings_def sort_reverse_def slice_to_def)

section \<open>The cache and the cached path of \<^verbatim>\<open>explain\<close>\<close>

lemma cache_get_snd:
  "snd (cache_get env U cfg t c text) =
     (if expired_at cfg t c (generate_key env U text) then c(generate_key env U text := None)
      else c)"
  by (auto simp: cache_get_def expired_at_def Let_def split: option.splits)

lemma cache_get_None:
  "fst (cache_get env U cfg t c text) = None \<longleftrightarrow>
     c (generate_key env U text) = None \<or> expired_at cfg t c (generate_key env U text)"
  by (auto simp: cache_get_def expired_at_def Let_def split: option.splits)

lemma explain_unexpired_entry:
  assumes "cache s (generate_key env U (cache_key_of post_text image_url)) = Some (v, timestamp)"
      and "\<not> now env (trace s) - timestamp > ttl cfg"
  shows "explain env U cfg post_text image_url True s =
           (Inr \<lparr>bullets = cached_bullets v, sources = cached_sources v, cached = True\<rparr>, s)"
  using assms by (simp add: explain_def cache_get_def)

text \<open>
  Claim C1. When \<^verbatim>\<open>explain\<close> is called with \<^verbatim>\<open>use_cache=True\<close> and the cache holds an
  entry for the key of \<^verbatim>\<open>(text, image_url)\<close> that is not older than the time-to-live,
  it returns the bullets and sources of that entry with \<^verbatim>\<open>cached=True\<close>, and the state
  of the explainer is the one it started from: the trace has no new call (no image
  download, no search, no model call) and the cache is unchanged. The query extraction
  and the prompt are pure and come after the return.
\<close>

theorem explain_cache_hit:
  assumes "cache s (generate_key env U (cache_key_of post_text image_url)) = Some (v, timestamp)"
      and "\<not> now env (trace s) - timestamp > ttl cfg"
  shows "explain env U cfg post_text image_url True s =
           (Inr \<lparr>bullets = cached_bullets v, sources = cached_sources v, cached = True\<rparr>, s)"
  using assms by (rule explain_unexpired_entry)

theorem explain_cache_hit_witness:
  "cache hit_state demo_key = Some (demo_value, 0) \<and>
   \<not> now demo_services (trace hit_state) - 0 > ttl demo_settings \<and>
   explain demo_services ascii_only demo_settings (ascii ''a'') None True hit_state =
     (Inr \<lparr>bullets = [ascii ''A bullet stored earlier''], sources = [], cached = True\<rparr>,
      hit_state)"
proof -
  have h1: "cache hit_state
              (generate_key demo_services ascii_only (cache_key_of (ascii ''a'') None)) =
            Some (demo_value, 0)"
    by (simp add: hit_state_def demo_key_def)
  have h2: "\<not> now demo_services (trace hit_state) - 0 > ttl demo_settings"
    by (simp add: hit_state_def demo_services_def demo_settings_def ttl_def)
  from explain_cache_hit [OF h1 h2] h1 h2 show ?thesis
    by (simp add: demo_value_def demo_key_def)
qed

section \<open>The uncached path of \<^verbatim>\<open>explain\<close>\<close>

lemma search_loop_trace:
  "\<exists>evs. snd (search_loop env cfg queries n all_results tr) = tr @ evs \<and> list_all is_search_event evs"
proof (induction queries arbitrary: all_results tr)
  case Nil
  show ?case by simp
next
  case (Cons q queries)
  show ?case
  proof (cases "tavily_search env tr q n")
    case (Inr results)
    from Cons [of "all_results @ results" "tr @ [TavilySearch q n (Inr results)]"] Inr
    show ?thesis by (auto simp: Let_def)
  next
    case (Inl e)
    let ?tr1 = "tr @ [TavilySearch q n (Inl e)]"
    show ?thesis
    proof (cases "fallback_provider cfg")
      case False
      from Cons [of all_results ?tr1] Inl False show ?thesis by (auto simp: Let_def)
    next
      case True
      show ?thesis
      proof (cases "brave_search env ?tr1 q n")
        case r2: (Inr results)
        from Cons [of "all_results @ results" "?tr1 @ [BraveSearch q n (Inr results)]"] Inl True r2
        show ?thesis by (auto simp: Let_def)
      next
        case r2: (Inl fe)
        from Cons [of all_results "?tr1 @ [BraveSearch q n (Inl fe)]"] Inl True r2
        show ?thesis by (auto simp: Let_def)
      qed
    qed
  qed
qed

lemma search_trace:
  "\<exists>evs. snd (search env cfg queries n tr) = tr @ evs \<and> list_all is_search_event evs"
  using search_loop_trace [of env cfg queries n "[]" tr]
  by (auto simp: search_def split: prod.splits)

lemma prepare_image_trace:
  "\<exists>r. snd (prepare_image_for_vision env U u tr) = tr @ [HttpGet u r]"
  by (auto simp: prepare_image_for_vision_def download_image_def Let_def split: prod.splits option.splits sum.splits if_splits)

lemma is_search_gather: "is_search_event e \<Longrightarrow> is_gather_event e"
  by (cases e) simp_all

lemma gathered_trace:
  "\<exists>evs. snd (snd (gathered env U cfg post_text image_url tr)) = tr @ evs \<and> list_all is_gather_event evs"
proof -
  define it where "it = (if truthy image_url
                        then prepare_image_for_vision env U (or_empty image_url) tr
                        else (None, tr))"
  obtain evs1 where e1: "snd it = tr @ evs1" "list_all is_gather_event evs1"
  proof (cases "truthy image_url")
    case True
    with prepare_image_trace [of env U "or_empty image_url" tr] that show ?thesis
      by (auto simp: it_def)
  next
    case False
    with that [of "[]"] show ?thesis by (simp add: it_def)
  qed
  obtain evs2 where e2: "snd (search env cfg (extract_search_queries U post_text) 5 (snd it)) = snd it @ evs2"
     "list_all is_search_event evs2"
    using search_trace by blast
  from e2(2) have "list_all is_gather_event evs2"
    by (auto simp: list_all_iff intro: is_search_gather)
  with e1 e2 have "snd (snd (gathered env U cfg post_text image_url tr)) = tr @ (evs1 @ evs2) \<and> list_all is_gather_event (evs1 @ evs2)"
    by (simp add: gathered_def Let_def it_def [symmetric])
  then show ?thesis by blast
qed

lemma explain_miss:
  assumes "use_cache \<longrightarrow> fst (cache_get env U cfg (now env (trace s)) (cache s) (cache_key_of post_text image_url)) = None"
  shows "explain env U cfg post_text image_url use_cache s =
           (let c1 = (if use_cache then snd (cache_get env U cfg (now env (trace s)) (cache s) (cache_key_of post_text image_url)) else cache s);
                g = gathered env U cfg post_text image_url (trace s);
                prompt = build_explanation_prompt post_text (fst (snd g));
                raw = openai_generate env (snd (snd g)) prompt (fst g);
                tr3 = snd (snd g) @ [OpenAIGenerate prompt (fst g) raw]
            in case raw of
              Inl e \<Rightarrow> (Inl e, \<lparr>cache = c1, trace = tr3\<rparr>)
            | Inr raw_response \<Rightarrow>
                (Inr \<lparr>bullets = parse_bullets U raw_response,
                      sources = build_sources U (fst (snd g)) raw_response, cached = False\<rparr>,
                 \<lparr>cache = (if use_cache
                           then cache_set env U (now env tr3) c1 (cache_key_of post_text image_url)
                                  \<lparr>cached_bullets = parse_bullets U raw_response,
                                   cached_sources = build_sources U (fst (snd g)) raw_response\<rparr>
                           else c1),
                  trace = tr3\<rparr>))"
  using assms
  by (simp add: explain_def gathered_def Let_def case_prod_beta LLMService_generate_def
        OpenAIProvider_generate_def split: sum.splits)


lemma explain_hit:
  assumes "fst (cache_get env U cfg (now env (trace s)) (cache s) (cache_key_of post_text image_url)) = Some v"
  shows "explain env U cfg post_text image_url True s =
           (Inr \<lparr>bullets = cached_bullets v, sources = cached_sources v, cached = True\<rparr>, s)"
proof -
  from assms have "cache_get env U cfg (now env (trace s)) (cache s) (cache_key_of post_text image_url) = (Some v, cache s)"
    by (auto simp: cache_get_def Let_def split: option.splits if_splits)
  then show ?thesis by (simp add: explain_def)
qed

lemma explain_fresh_stored:
  assumes ex: "explain env U cfg post_text image_url True s = (Inr r, s1)"
      and fresh: "\<not> cached r"
  shows "cache s1 (generate_key env U (cache_key_of post_text image_url)) =
           Some (\<lparr>cached_bullets = bullets r, cached_sources = sources r\<rparr>, now env (trace s1))"
proof (cases "fst (cache_get env U cfg (now env (trace s)) (cache s) (cache_key_of post_text image_url))")
  case (Some v)
  from explain_hit [OF Some] ex fresh show ?thesis by auto
next
  case None
  then have "True \<longrightarrow> fst (cache_get env U cfg (now env (trace s)) (cache s) (cache_key_of post_text image_url)) = None"
    by simp
  from explain_miss [OF this] ex show ?thesis
    by (auto simp: Let_def cache_set_def split: sum.splits)
qed

lemma demo_first:
  "fst (explain demo_services ascii_only demo_settings (ascii ''a'') (Some (ascii ''b:'')) True empty_state) = Inr demo_response"
  apply (simp add: explain_def extract_a search_demo Let_def empty_state_def cache_get_def LLMService_generate_def OpenAIProvider_generate_def
     prepare_image_for_vision_def download_image_def truthy_def or_empty_def)
  apply (simp add: demo_services_def demo_response_def parse_bullets_def build_sources_def sub_bullet_marker_def sub_number_marker_def
    citations_def int_of_digits_def enumerate_from_def char_defs Let_def)
  done


lemma failing_run:
  "explain failing_services ascii_only demo_settings (ascii ''a'') None True stale_state =
     (Inl (Exception (ascii ''model down'')),
      \<lparr>cache = (cache stale_state)(demo_key := None),
       trace = [TavilySearch (ascii ''a'') 5 (Inr [demo_result]),
                OpenAIGenerate (build_explanation_prompt (ascii ''a'') [demo_result]) None
                  (Inl (Exception (ascii ''model down'')))]\<rparr>)"
  apply (simp add: explain_def extract_a search_failing Let_def stale_state_def cache_get_def
      LLMService_generate_def OpenAIProvider_generate_def truthy_def demo_key_def)
  apply (simp add: failing_services_def demo_services_def generate_key_def ttl_def demo_settings_def)
  done

text \<open>
  Claim C10. The requests \<^verbatim>\<open>explain("a", image_url="b:")\<close> and
  \<^verbatim>\<open>explain("a:b", image_url=None)\<close> are distinct and have the same cache key, since
  the key is the digest of \<^verbatim>\<open>post_text + ":" + (image_url or "")\<close>, lowered and
  trimmed. So when the first has been answered afresh and stored, the second, asked while
  that entry is not older than the time-to-live, returns the bullets and sources of the
  first with \<^verbatim>\<open>cached=True\<close>.
\<close>

theorem cache_key_collision:
  assumes "explain env U cfg (ascii ''a'') (Some (ascii ''b:'')) True s = (Inr r, s1)"
      and "\<not> cached r"
      and "cache s2 = cache s1"
      and "\<not> now env (trace s2) - now env (trace s1) > ttl cfg"
  shows "(ascii ''a'', Some (ascii ''b:'')) \<noteq> (ascii ''a:b'', None) \<and>
         generate_key env U (cache_key_of (ascii ''a'') (Some (ascii ''b:''))) =
           generate_key env U (cache_key_of (ascii ''a:b'') None) \<and>
         explain env U cfg (ascii ''a:b'') None True s2 = (Inr (r\<lparr>cached := True\<rparr>), s2)"
proof -
  have keys: "cache_key_of (ascii ''a'') (Some (ascii ''b:'')) = cache_key_of (ascii ''a:b'') None"
    by (simp add: cache_key_of_def or_empty_def ascii_def)
  from explain_fresh_stored [OF assms(1,2)] keys assms(3)
  have "cache s2 (generate_key env U (cache_key_of (ascii ''a:b'') None)) =
          Some (\<lparr>cached_bullets = bullets r, cached_sources = sources r\<rparr>, now env (trace s1))"
    by simp
  from explain_unexpired_entry [OF this assms(4)]
  have "explain env U cfg (ascii ''a:b'') None True s2 =
          (Inr \<lparr>bullets = bullets r, sources = sources r, cached = True\<rparr>, s2)"
    by simp
  moreover have "\<lparr>bullets = bullets r, sources = sources r, cached = True\<rparr> = r\<lparr>cached := True\<rparr>"
    by simp
  ultimately show ?thesis using keys by (simp add: ascii_def)
qed

theorem cache_key_collision_witness:
  "fst (explain demo_services ascii_only demo_settings (ascii ''a'') (Some (ascii ''b:'')) True
          empty_state) = Inr demo_response \<and>
   \<not> cached demo_response \<and>
   fst (explain demo_services ascii_only demo_settings (ascii ''a:b'') None True
          (snd (explain demo_services ascii_only demo_settings (ascii ''a'') (Some (ascii ''b:''))
                  True empty_state))) = Inr (demo_response\<lparr>cached := True\<rparr>)"
proof -
  let ?s1 = "snd (explain demo_services ascii_only demo_settings (ascii ''a'')
                    (Some (ascii ''b:'')) True empty_state)"
  have h1: "explain demo_services ascii_only demo_settings (ascii ''a'') (Some (ascii ''b:'')) True
              empty_state = (Inr demo_response, ?s1)"
    using demo_first by (simp add: prod_eq_iff)
  have h2: "\<not> cached demo_response" by (simp add: demo_response_def)
  have h4: "\<not> now demo_services (trace ?s1) - now demo_services (trace ?s1) > ttl demo_settings"
    by (simp add: ttl_def demo_settings_def)
  from cache_key_collision [OF h1 h2 refl h4] demo_first h2 show ?thesis by simp
qed

text \<open>
  Claim C7, amended. When the call to the model raises during \<^verbatim>\<open>explain\<close>, the
  caller gets that error, the call to the model is the last call made, and nothing is
  stored in the cache: the cache afterwards is the cache before, except that the lookup
  at the start of the request has removed the entry of this request's key if it was
  expired (only when \<^verbatim>\<open>use_cache\<close> is set). In particular every entry of the cache
  afterwards was an entry before.
\<close>

theorem explain_llm_failure:
  assumes ex: "explain env U cfg post_text image_url use_cache s = (res, s')"
      and ev: "OpenAIGenerate prompt img (Inl e) \<in> set (drop (length (trace s)) (trace s'))"
  shows "res = Inl e \<and>
         last (trace s') = OpenAIGenerate prompt img (Inl e) \<and>
         cache s' =
           (if use_cache \<and> expired_at cfg (now env (trace s)) (cache s)
                              (generate_key env U (cache_key_of post_text image_url))
            then (cache s)(generate_key env U (cache_key_of post_text image_url) := None)
            else cache s) \<and>
         cache s' \<subseteq>\<^sub>m cache s"
proof -
  let ?get = "cache_get env U cfg (now env (trace s)) (cache s) (cache_key_of post_text image_url)"
  have miss: "use_cache \<longrightarrow> fst ?get = None"
  proof (intro impI, rule ccontr)
    assume uc: use_cache and "fst ?get \<noteq> None"
    then obtain v where "fst ?get = Some v" by auto
    from explain_hit [OF this] uc ex have "trace s' = trace s" by auto
    with ev show False by simp
  qed
  define g where "g = gathered env U cfg post_text image_url (trace s)"
  define p where "p = build_explanation_prompt post_text (fst (snd g))"
  define raw where "raw = openai_generate env (snd (snd g)) p (fst g)"
  obtain evs where evs: "snd (snd g) = trace s @ evs" "list_all is_gather_event evs"
    unfolding g_def using gathered_trace by blast
  from explain_miss [OF miss] ex
  have tr: "trace s' = snd (snd g) @ [OpenAIGenerate p (fst g) raw]"
    by (auto simp: Let_def g_def p_def raw_def split: sum.splits)
  from tr evs ev have "OpenAIGenerate prompt img (Inl e) \<in> set evs \<or>
      OpenAIGenerate prompt img (Inl e) = OpenAIGenerate p (fst g) raw"
    by auto
  moreover from evs(2) have "OpenAIGenerate prompt img (Inl e) \<notin> set evs"
    by (auto simp: list_all_iff)
  ultimately have same: "raw = Inl e" "p = prompt" "fst g = img" by auto
  from explain_miss [OF miss] ex same(1)
  have r: "res = Inl e" and c: "cache s' = (if use_cache then snd ?get else cache s)"
    by (auto simp: Let_def g_def p_def raw_def)
  note r
  moreover from tr same have "last (trace s') = OpenAIGenerate prompt img (Inl e)" by simp
  moreover from c have c': "cache s' =
           (if use_cache \<and> expired_at cfg (now env (trace s)) (cache s)
                              (generate_key env U (cache_key_of post_text image_url))
            then (cache s)(generate_key env U (cache_key_of post_text image_url) := None)
            else cache s)"
    by (simp add: cache_get_snd)
  moreover from c' have "cache s' \<subseteq>\<^sub>m cache s"
    by (auto simp: map_le_def split: if_splits)
  ultimately show ?thesis by blast
qed


theorem explain_llm_failure_witness:
  "fst (explain failing_services ascii_only demo_settings (ascii ''a'') None True stale_state) =
     Inl (Exception (ascii ''model down'')) \<and>
   last (trace (snd (explain failing_services ascii_only demo_settings (ascii ''a'') None True
                       stale_state))) =
     OpenAIGenerate (build_explanation_prompt (ascii ''a'') [demo_result]) None
       (Inl (Exception (ascii ''model down''))) \<and>
   cache (snd (explain failing_services ascii_only demo_settings (ascii ''a'') None True
                 stale_state)) = (cache stale_state)(demo_key := None) \<and>
   cache (snd (explain failing_services ascii_only demo_settings (ascii ''a'') None True
                 stale_state)) \<subseteq>\<^sub>m cache stale_state"
proof -
  let ?run = "explain failing_services ascii_only demo_settings (ascii ''a'') None True stale_state"
  let ?ev = "OpenAIGenerate (build_explanation_prompt (ascii ''a'') [demo_result]) None
               (Inl (Exception (ascii ''model down'')))"
  have h1: "?run = (fst ?run, snd ?run)" by simp
  have h2: "?ev \<in> set (drop (length (trace stale_state)) (trace (snd ?run)))"
    by (simp add: failing_run) (simp add: stale_state_def)
  from explain_llm_failure [OF h1 h2] show ?thesis
    by (simp add: failing_run)
qed

text \<open>
  The claim as first stated says that the cache after the failed request equals the cache
  before it. With an expired entry under the key of the request, the lookup evicts it
  before the model is called, and the two caches differ.
\<close>

theorem explain_llm_failure_changes_cache:
  "fst (explain failing_services ascii_only demo_settings (ascii ''a'') None True stale_state) =
     Inl (Exception (ascii ''model down'')) \<and>
   cache (snd (explain failing_services ascii_only demo_settings (ascii ''a'') None True
                 stale_state)) \<noteq> cache stale_state"
proof -
  have "cache stale_state demo_key \<noteq> ((cache stale_state)(demo_key := None)) demo_key"
    by (simp add: stale_state_def)
  then have "(cache stale_state)(demo_key := None) \<noteq> cache stale_state"
    by metis
  then show ?thesis by (simp add: failing_run)
qed

section \<open>Query extraction\<close>

lemma unique_queries_invariant:
  assumes "distinct (map (\<lambda>q. strip (str_lower U q)) unique)"
      and "(\<lambda>q. strip (str_lower U q)) ` set unique \<subseteq> seen"
      and "list_all (\<lambda>q. 3 < length (strip (str_lower U q))) unique"
  shows "distinct (map (\<lambda>q. strip (str_lower U q)) (unique_queries U qs seen unique)) \<and>
         list_all (\<lambda>q. 3 < length (strip (str_lower U q))) (unique_queries U qs seen unique)"
  using assms
proof (induction qs arbitrary: seen unique)
  case Nil
  then show ?case by simp
next
  case (Cons q qs)
  show ?case
  proof (cases "strip (str_lower U q) \<notin> seen \<and> 3 < length (strip (str_lower U q))")
    case True
    have "distinct (map (\<lambda>q. strip (str_lower U q)) (unique @ [q]))"
      using Cons.prems True by auto
    moreover have "(\<lambda>q. strip (str_lower U q)) ` set (unique @ [q]) \<subseteq> insert (strip (str_lower U q)) seen"
      using Cons.prems by auto
    moreover have "list_all (\<lambda>q. 3 < length (strip (str_lower U q))) (unique @ [q])"
      using Cons.prems True by simp
    ultimately show ?thesis
      using Cons.IH [of "unique @ [q]" "insert (strip (str_lower U q)) seen"] True
      by (simp add: Let_def)
  next
    case False
    then show ?thesis using Cons.IH [of unique seen] Cons.prems by (auto simp: Let_def)
  qed
qed

lemma distinct_map_comp:
  "distinct (map (\<lambda>q. g (f q)) xs) \<Longrightarrow> distinct (map f xs)"
  by (induction xs) auto

text \<open>
  Claim C9, amended. For every input the extractor returns 1 to 3 queries, no two of
  which are equal after lowering and trimming (so none is a case-insensitive duplicate of
  another); and either each of them is longer than 3 characters after lowering and
  trimming, or none of the candidates was and the result is the single query made of the
  first 200 characters of the trimmed input, whatever its length.
\<close>

theorem extract_search_queries_shape:
  "1 \<le> length (extract_search_queries U post_text) \<and>
   length (extract_search_queries U post_text) \<le> 3 \<and>
   distinct (map (\<lambda>q. strip (str_lower U q)) (extract_search_queries U post_text)) \<and>
   distinct (map (str_lower U) (extract_search_queries U post_text)) \<and>
   ((\<forall>q \<in> set (extract_search_queries U post_text). 3 < length (strip (str_lower U q))) \<or>
    extract_search_queries U post_text = [take 200 (strip post_text)])"
proof -
  obtain queries where out: "extract_search_queries U post_text =
      (if unique_queries U queries {} [] \<noteq> [] then take 3 (unique_queries U queries {} [])
       else [take 200 (strip post_text)])"
    by (simp add: extract_search_queries_def Let_def)
  let ?u = "unique_queries U queries {} []"
  from unique_queries_invariant [of U "[]" "{}" queries]
  have d: "distinct (map (\<lambda>q. strip (str_lower U q)) ?u)"
    and l: "list_all (\<lambda>q. 3 < length (strip (str_lower U q))) ?u"
    by simp_all
  show ?thesis
  proof (cases "?u = []")
    case True
    with out show ?thesis by simp
  next
    case False
    with out have o: "extract_search_queries U post_text = take 3 ?u" by simp
    from False have "1 \<le> length (take 3 ?u)" by (cases ?u) simp_all
    moreover have "length (take 3 ?u) \<le> 3" by simp
    moreover from d have d3: "distinct (map (\<lambda>q. strip (str_lower U q)) (take 3 ?u))"
      by (simp add: take_map [symmetric] distinct_take)
    moreover from d3 have "distinct (map (str_lower U) (take 3 ?u))"
      by (rule distinct_map_comp)
    moreover from l have "\<forall>q \<in> set (take 3 ?u). 3 < length (strip (str_lower U q))"
      by (auto simp: list_all_iff dest: in_set_takeD)
    ultimately show ?thesis using o by simp
  qed
qed

lemma extract_check_out:
  "extract_search_queries ascii_only (ascii ''Check out #foo #bar'') =
     [ascii ''Check out #foo #bar'', ascii ''foo bar'']"
  by (simp add: extract_defs char_defs Let_def)

theorem extract_search_queries_shape_witness:
  "extract_search_queries ascii_only (ascii ''Check out #foo #bar'') =
     [ascii ''Check out #foo #bar'', ascii ''foo bar''] \<and>
   1 \<le> length (extract_search_queries ascii_only (ascii ''Check out #foo #bar'')) \<and>
   length (extract_search_queries ascii_only (ascii ''Check out #foo #bar'')) \<le> 3 \<and>
   distinct (map (\<lambda>q. strip (str_lower ascii_only q))
               (extract_search_queries ascii_only (ascii ''Check out #foo #bar''))) \<and>
   list_all (\<lambda>q. 3 < length (strip (str_lower ascii_only q)))
     (extract_search_queries ascii_only (ascii ''Check out #foo #bar''))"
  using extract_search_queries_shape [of ascii_only "ascii ''Check out #foo #bar''"]
    extract_check_out
  by (simp add: char_defs)

text \<open>
  The claim as first stated asks every query to be non-empty and longer than 3 characters
  after trimming. The fallback of the last line returns the input itself: the query
  \<^verbatim>\<open>hi\<close> for the post \<^verbatim>\<open>hi\<close>, and the empty query for the empty post.
\<close>

theorem extract_search_queries_short_query:
  "extract_search_queries ascii_only (ascii ''hi'') = [ascii ''hi''] \<and>
   length (strip (ascii ''hi'')) = 2 \<and>
   extract_search_queries ascii_only [] = [[]]"
  by (simp add: extract_defs char_defs Let_def)

section \<open>The bullets of a response\<close>














section \<open>The sources of a response\<close>















section \<open>Ranking the search results\<close>




lemma first_by_url_urls: "url ` set (first_by_url rs) = url ` set rs"
proof (induction rs rule: first_by_url.induct)
  case 1
  show ?case by simp
next
  case (2 r rs)
  then show ?case by auto
qed



lemma first_by_url_subseq: "subseq (first_by_url rs) rs"
proof (induction rs rule: first_by_url.induct)
  case 1
  show ?case by simp
next
  case (2 r rs)
  have "subseq (filter (\<lambda>x. url x \<noteq> url r) rs) rs" by simp
  with 2 have "subseq (first_by_url (filter (\<lambda>x. url x \<noteq> url r) rs)) rs"
    by (rule subseq_order.trans)
  then show ?case by simp
qed












section \<open>Searching with a fallback\<close>






section \<open>The events of the streaming route\<close>







section \<open>The model fallback of the Claude provider\<close>

text \<open>Nothing in the loop reads \<^verbatim>\<open>self.model\<close>: the result and the calls made are the
  same whatever model was remembered.\<close>

lemma generate_ignores_model:
  "fst (generate_loop env U c models last_error (p\<lparr>model := m\<rparr>) tr) =
     fst (generate_loop env U c models last_error p tr) \<and>
   snd (snd (generate_loop env U c models last_error (p\<lparr>model := m\<rparr>) tr)) =
     snd (snd (generate_loop env U c models last_error p tr))"
proof (induction models arbitrary: last_error p tr m)
  case Nil
  show ?case by simp
next
  case (Cons a models)
  show ?case
    by (auto simp: Let_def Cons.IH split: sum.splits list.splits)
qed

lemma stream_ignores_model:
  "fst (stream_loop env U c models last_error yielded (p\<lparr>model := m\<rparr>) tr) =
     fst (stream_loop env U c models last_error yielded p tr) \<and>
   snd (snd (stream_loop env U c models last_error yielded (p\<lparr>model := m\<rparr>) tr)) =
     snd (snd (stream_loop env U c models last_error yielded p tr))"
proof (induction models arbitrary: last_error yielded p tr m)
  case Nil
  show ?case by simp
next
  case (Cons a models)
  show ?case
    by (auto simp: Let_def Cons.IH split: sum.splits option.splits)
qed

text \<open>What the loop does right: an error of another class ends the call at once, with
  that error; a success ends it with the text; and when every model is not found the
  error raised names the last failure.\<close>

lemma generate_loop_other_error:
  assumes "messages_create env tr m c = Inl e" and "\<not> model_not_found U e"
  shows "generate_loop env U c (m # models) last_error p tr =
           (Inl e, p, tr @ [MessagesCreate m c (Inl e)])"
  using assms by (simp add: Let_def)

lemma generate_loop_not_found:
  assumes "messages_create env tr m c = Inl e" and "model_not_found U e"
  shows "generate_loop env U c (m # models) last_error p tr =
           generate_loop env U c models (Some e) p (tr @ [MessagesCreate m c (Inl e)])"
  using assms by (simp add: Let_def)

lemma generate_loop_success:
  assumes "messages_create env tr m c = Inr (t # blocks)"
  shows "generate_loop env U c (m # models) last_error p tr =
           (Inr t, p\<lparr>model := Some m\<rparr>, tr @ [MessagesCreate m c (Inr (t # blocks))])"
  using assms by (simp add: Let_def)

lemma generate_loop_exhausted:
  "generate_loop env U c [] (Some e) p tr =
     (Inl (Exception (ascii ''Failed to generate with any Claude model: '' @ str_of e)), p, tr)"
  by (simp add: str_error_def)

lemma not_found_is_not_found: "model_not_found ascii_only not_found_error"
  by (simp add: model_not_found_def not_found_error_def char_defs)

lemma first_call_eval:
  "first_call =
     (Inr (ascii ''text''),
      \<lparr>available = True, model = Some (ascii ''claude-3-5-sonnet-20240620'')\<rparr>,
      [MessagesCreate (ascii ''claude-3-5-sonnet-20241022'')
         \<lparr>content_image = None, content_text = ascii ''prompt''\<rparr> (Inl not_found_error),
       MessagesCreate (ascii ''claude-3-5-sonnet-20240620'')
         \<lparr>content_image = None, content_text = ascii ''prompt''\<rparr> (Inr [ascii ''text''])])"
  by (simp add: first_call_def AnthropicProvider_generate_def claude_def AnthropicProvider_init_def
        build_content_def MODEL_FALLBACKS_def first_model_retired_def demo_services_def Let_def
        not_found_is_not_found)
     (simp add: ascii_def)

text \<open>
  Claim C3, at the input where the code departs from it. The first call finds the first
  model retired, succeeds with the second and stores it in \<^verbatim>\<open>self.model\<close>; the second
  call on the same provider still starts with the first model of the list, not with the
  one remembered.
\<close>

theorem generate_restarts_from_first_model:
  "fst first_call = Inr (ascii ''text'') \<and>
   model (fst (snd first_call)) = Some (ascii ''claude-3-5-sonnet-20240620'') \<and>
   attempted (drop (length (snd (snd first_call))) (snd (snd second_call))) =
     [ascii ''claude-3-5-sonnet-20241022'', ascii ''claude-3-5-sonnet-20240620'']"
  by (simp add: first_call_eval second_call_def AnthropicProvider_generate_def
        build_content_def MODEL_FALLBACKS_def first_model_retired_def demo_services_def Let_def
        not_found_is_not_found attempted_def)
     (simp add: ascii_def)

end
